theory Spec2Isabelle
  imports Complex_Main "HOL-Library.Multiset" "HOL-Library.AList"
begin

section \<open>Numeric helpers of \<open>core.py\<close>\<close>

text \<open>
  Python numbers are modelled as mathematical reals: a list of numbers is a \<open>real list\<close>,
  \<open>v ** .5\<close> and \<open>v ** (1/2)\<close> on a non-negative \<open>v\<close> are \<open>sqrt v\<close>. Rounding of
  binary floating point is not part of the model. Exceptions are values of the type
  \<open>error\<close>; a function that can raise returns \<open>error + 'a\<close>.
\<close>

datatype error =
    ValueError
  | Warning
  | TypeError
  | IndexError
  | KeyError string

subsection \<open>\<open>get_dist\<close>\<close>

text \<open>
  \<^verbatim>\<open>
  deltas = []
  summe = 0
  for coord1, coord2 in zip(coords1, coords2):
      deltas.append(coord2-coord1)
  for delta in deltas:
      summe += delta**2
  return (summe ** .5)
  \<close>
  \<open>zip\<close> stops at the end of the shorter list, in Python as in HOL.
\<close>

definition get_dist :: "real list \<Rightarrow> real list \<Rightarrow> real" where
  "get_dist coords1 coords2 =
     (let deltas = map (\<lambda>(coord1, coord2). coord2 - coord1) (zip coords1 coords2);
          summe = fold (\<lambda>delta s. s + delta\<^sup>2) deltas 0
      in sqrt summe)"

subsection \<open>\<open>get_deltas\<close>\<close>

text \<open>
  \<^verbatim>\<open>
  offset = [0]
  offset.extend(iterable)
  deltas = [(it - off) for off, it in zip(offset, iterable)]
  del deltas[0]
  return deltas
  \<close>
  \<open>del deltas[0]\<close> raises IndexError on an empty list.
\<close>

definition get_deltas :: "real list \<Rightarrow> error + real list" where
  "get_deltas iterable =
     (let offset = [0] @ iterable;
          deltas = map (\<lambda>(off, it). it - off) (zip offset iterable)
      in case deltas of
           [] \<Rightarrow> Inl IndexError
         | _ # rest \<Rightarrow> Inr rest)"

subsection \<open>\<open>pd_dist\<close>\<close>

text \<open>
  A labelled point (a pandas Series of numbers) is a finite map from labels to values.
  \<^verbatim>\<open>
  def pd_dist(pd_ser1, pd_ser2 = pd.Series({'x': 0, 'y': 0, 'z': 0}),
      coords=['x', 'y', 'z']):
      total = 0
      for coord in coords:
          if coord in pd_ser1.index and coord in pd_ser2.index:
              total += (pd_ser2.loc[coord] - pd_ser1.loc[coord]) ** 2
          else:
              raise KeyError("Key " + coord + " missing from series.")
      return total ** (1/2)
  \<close>
  An omitted argument is \<open>None\<close> in the model and takes the default of the signature.
  The accumulator \<open>total\<close> is called \<open>tot\<close>.
\<close>

type_synonym series = "string \<rightharpoonup> real"

definition origin :: series where
  "origin = [''x'' \<mapsto> 0, ''y'' \<mapsto> 0, ''z'' \<mapsto> 0]"

definition xyz :: "string list" where
  "xyz = [''x'', ''y'', ''z'']"

fun pd_dist_loop :: "series \<Rightarrow> series \<Rightarrow> string list \<Rightarrow> real \<Rightarrow> error + real" where
  "pd_dist_loop pd_ser1 pd_ser2 [] tot = Inr tot"
| "pd_dist_loop pd_ser1 pd_ser2 (coord # rest) tot =
     (case (pd_ser1 coord, pd_ser2 coord) of
        (Some v1, Some v2) \<Rightarrow> pd_dist_loop pd_ser1 pd_ser2 rest (tot + (v2 - v1)\<^sup>2)
      | _ \<Rightarrow> Inl (KeyError (''Key '' @ coord @ '' missing from series.'')))"

definition pd_dist :: "series \<Rightarrow> series option \<Rightarrow> string list option \<Rightarrow> error + real" where
  "pd_dist pd_ser1 pd_ser2 coords =
     (let s2 = (case pd_ser2 of None \<Rightarrow> origin | Some s \<Rightarrow> s);
          cs = (case coords of None \<Rightarrow> xyz | Some c \<Rightarrow> c)
      in case pd_dist_loop pd_ser1 s2 cs 0 of
           Inl e \<Rightarrow> Inl e
         | Inr tot \<Rightarrow> Inr (sqrt tot))"

subsection \<open>Results of pandas arithmetic\<close>

text \<open>
  Arithmetic on a pandas Series does not raise on a zero divisor: the entry becomes
  an infinity or NaN. A computed entry is therefore a value of \<open>fl\<close>: a finite real,
  plus or minus infinity, or NaN. Inputs are finite reals; zero has no sign in the model
  (a zero divisor counts as positive zero).
\<close>

datatype fl = Fin real | PInf | NInf | NaN

fun fl_div :: "fl \<Rightarrow> fl \<Rightarrow> fl" where
  "fl_div (Fin a) (Fin b) =
     (if b \<noteq> 0 then Fin (a / b)
      else if a = 0 then NaN
      else if 0 < a then PInf else NInf)"
| "fl_div (Fin a) PInf = Fin 0"
| "fl_div (Fin a) NInf = Fin 0"
| "fl_div PInf (Fin b) = (if 0 \<le> b then PInf else NInf)"
| "fl_div NInf (Fin b) = (if 0 \<le> b then NInf else PInf)"
| "fl_div _ _ = NaN"

fun fl_add :: "fl \<Rightarrow> fl \<Rightarrow> fl" where
  "fl_add (Fin a) (Fin b) = Fin (a + b)"
| "fl_add NaN _ = NaN"
| "fl_add _ NaN = NaN"
| "fl_add PInf NInf = NaN"
| "fl_add NInf PInf = NaN"
| "fl_add PInf _ = PInf"
| "fl_add _ PInf = PInf"
| "fl_add NInf _ = NInf"
| "fl_add _ NInf = NInf"

fun fl_cube :: "fl \<Rightarrow> fl" where
  "fl_cube (Fin a) = Fin (a ^ 3)"
| "fl_cube w = w"

text \<open>\<open>Series.sum()\<close> skips NaN entries (\<open>skipna=True\<close>); the sum of nothing is 0.\<close>

definition nansum :: "fl list \<Rightarrow> fl" where
  "nansum ws = fold (\<lambda>w acc. fl_add acc w) (filter (\<lambda>w. w \<noteq> NaN) ws) (Fin 0)"

fun fillna :: "fl \<Rightarrow> fl \<Rightarrow> fl" where
  "fillna v NaN = v"
| "fillna v w = w"

subsection \<open>\<open>get_cubic_weight\<close>\<close>

text \<open>
  \<^verbatim>\<open>
  closest = min(pd_ser)
  weights = (closest / pd_ser) ** 3
  return (weights / weights.sum()).fillna(0)
  \<close>
  The Series is the list of its values, in index order. \<open>min\<close> of an empty Series
  raises ValueError.
\<close>

definition get_cubic_weight :: "real list \<Rightarrow> error + fl list" where
  "get_cubic_weight pd_ser =
     (case pd_ser of
        [] \<Rightarrow> Inl ValueError
      | d # ds \<Rightarrow>
          (let closest = fold min ds d;
               weights = map (\<lambda>v. fl_cube (fl_div (Fin closest) (Fin v))) pd_ser;
               wsum = nansum weights
           in Inr (map (\<lambda>w. fillna (Fin 0) (fl_div w wsum)) weights)))"

subsection \<open>\<open>linterp_1D\<close>\<close>

text \<open>
  \<^verbatim>\<open>
  def linterp_1D(series1, series2, colname, coord, ignore=None):
      if ignore:
          ignore.append(colname)
      else:
          ignore = [colname]
      index1 = series1.index
      index2 = series2.index
      datcols = [col for col in index1 if col not in ignore and col in index2]
      x1 = series1.loc[colname]
      x2 = series2.loc[colname]
      ...
      return series1.loc[datcols] + (coord - x1) * (series2.loc[datcols] -
          series1.loc[datcols]) / (x2 - x1)
  \<close>
  The argument \<open>ignore\<close> is \<open>None\<close> or a reference to a list object that the caller
  also holds, so the lists live in a store and the call returns the store it leaves
  behind, together with its result or exception. Here a Series keeps the order of its
  labels (labels are distinct), since \<open>datcols\<close> follows the order of \<open>series1.index\<close>.
  Every label of \<open>datcols\<close> is in both indices, so both look-ups in the result succeed.
\<close>

type_synonym ref = nat
type_synonym heap = "ref \<Rightarrow> string list"
type_synonym lseries = "(string \<times> real) list"

definition loc :: "lseries \<Rightarrow> string \<Rightarrow> real" where
  "loc ser col = the (map_of ser col)"

definition linterp_1D ::
  "heap \<Rightarrow> lseries \<Rightarrow> lseries \<Rightarrow> string \<Rightarrow> real \<Rightarrow> ref option
     \<Rightarrow> heap \<times> (error + (string \<times> fl) list)" where
  "linterp_1D h series1 series2 colname coord ignore =
     (let (h', ign) =
            (case ignore of
               Some a \<Rightarrow>
                 if h a \<noteq> [] then (h(a := h a @ [colname]), h a @ [colname])
                 else (h, [colname])
             | None \<Rightarrow> (h, [colname]));
          index1 = map fst series1;
          index2 = map fst series2;
          datcols = filter (\<lambda>col. col \<notin> set ign \<and> col \<in> set index2) index1
      in (h',
          case map_of series1 colname of
            None \<Rightarrow> Inl (KeyError colname)
          | Some x1 \<Rightarrow>
             (case map_of series2 colname of
                None \<Rightarrow> Inl (KeyError colname)
              | Some x2 \<Rightarrow>
                  Inr (map (\<lambda>col. (col,
                         fl_add (Fin (loc series1 col))
                           (fl_div (Fin ((coord - x1) * (loc series2 col - loc series1 col)))
                                   (Fin (x2 - x1)))))
                       datcols))))"

section \<open>Construction of a node table\<close>

text \<open>
  \<open>NodeDataFrame.__init__(self, data, coords, *args, units=None, columns=None, **kwargs)\<close>
  inspects its arguments by their run-time type. The model gives each argument a datatype
  with one constructor per shape the code tells apart:
  \<^item> \<open>data\<close>: a dict (with its keys, in order), a DataFrame (with its columns), or
    anything else;
  \<^item> \<open>units\<close>: \<open>None\<close>, a dict, a sized sequence without \<open>items\<close> (a list), or a
    value with neither \<open>items\<close> nor \<open>len\<close> (a number);
  \<^item> \<open>coords\<close>: a dict, a subscriptable sequence (a list), or a value with neither
    \<open>items\<close> nor subscription; the entries of a list or dict are strings, bools or
    something else.
  Column names are strings. A Python dict is an association list with distinct keys, in
  insertion order. What pandas does with the rows of \<open>data\<close> is outside the model: the
  result is the schema handed to \<open>pd.DataFrame.__init__\<close> and written into the rows
  \<open>_coord\<close> and \<open>_units\<close>.
\<close>

datatype data_arg = DictData "string list" | FrameData "string list" | OtherData

datatype cval = CStr string | CBool bool | COther

datatype coords_arg =
    CoordsDict "(string \<times> cval) list"
  | CoordsList "cval list"
  | CoordsOther

datatype units_arg =
    UnitsNone
  | UnitsDict "(string \<times> string) list"
  | UnitsList "string list"
  | UnitsNumber real

record node_table =
  columns :: "string list"
  coord_row :: "(string \<times> cval) list"
  units_row :: "(string \<times> string) list"

definition connect_col :: string where
  "connect_col = ''_connections''"

text \<open>\<open>{k: v for k, v in pairs}\<close>: a later pair with the same key replaces the value.\<close>

definition dict_of :: "('k \<times> 'v) list \<Rightarrow> ('k \<times> 'v) list" where
  "dict_of pairs = fold (\<lambda>(k, v) d. AList.update k v d) pairs []"

text \<open>
  \<^verbatim>\<open>
  if type(data) is dict:
      columns = list(data.keys())
  elif type(data) is pd.DataFrame:
      columns = list(data.columns)
  \<close>
\<close>

definition named_columns :: "data_arg \<Rightarrow> string list option \<Rightarrow> string list option" where
  "named_columns data cols =
     (case data of
        DictData keys \<Rightarrow> Some keys
      | FrameData cs \<Rightarrow> Some cs
      | OtherData \<Rightarrow> cols)"

text \<open>
  \<^verbatim>\<open>
  if units:
      try:
          for key, value in units.items():
              if key not in columns:
                  raise Warning(...)
                  columns.append(key)
      except AttributeError:
          try:
              if len(units) != len(columns):
                  raise Warning(...)
              units = {col: unit for col, unit in zip(columns, units)}
          except (TypeError, AttributeError):
              raise Warning('Ill-defined units. Proceeding without units.')
              units = {}
  else:
      units = {}
  \<close>
  \<open>Warning\<close> is an exception class and no handler here catches it: each \<open>raise Warning\<close>
  leaves the constructor, and the statement after it never runs.
\<close>

fun units_items_loop :: "string list \<Rightarrow> (string \<times> string) list \<Rightarrow> error + unit" where
  "units_items_loop cols [] = Inr ()"
| "units_items_loop cols ((key, val) # rest) =
     (if key \<notin> set cols then Inl Warning else units_items_loop cols rest)"

definition init_units :: "string list \<Rightarrow> units_arg \<Rightarrow> error + (string \<times> string) list" where
  "init_units cols units =
     (case units of
        UnitsNone \<Rightarrow> Inr []
      | UnitsDict d \<Rightarrow>
          (if d = [] then Inr []
           else case units_items_loop cols d of Inl e \<Rightarrow> Inl e | Inr _ \<Rightarrow> Inr d)
      | UnitsList us \<Rightarrow>
          (if us = [] then Inr []
           else if length us \<noteq> length cols then Inl Warning
           else Inr (dict_of (zip cols us)))
      | UnitsNumber n \<Rightarrow>
          (if n = 0 then Inr [] else Inl Warning))"

text \<open>
  \<^verbatim>\<open>
  try:
      for key, coord in coords.items():
          if type(coord) is not bool:
              raise ValueError(...)
          if len(coords) > len(columns):
              raise ValueError(...)
          if key not in columns:
              raise Warning(...)
              columns.append(key)
  except AttributeError:
      try:
          if type(coords[0]) is str:
              for coord in coords:
                  if coord not in columns:
                      raise Warning('Coord ' + coord + ...)
                      columns.append(coord)
              coords = {col: (col in coords) for col in columns}
          elif type(coords[0]) is bool:
              if len(coords) != len(columns):
                  raise IndexError('Length of coords must match number of columns.')
              else:
                  coords = {col: coord for col, coord in zip(columns, coords)}
          else:
              raise TypeError()
      except TypeError:
          raise TypeError('Coords must be in form ...')
  \<close>
  \<open>coords[0]\<close> on an empty list raises IndexError, which the handler for TypeError lets
  through, as it does the IndexError and the Warning raised inside. An entry that is
  not a string is in no list of column names, and building the warning's message from it
  raises TypeError.
\<close>

fun coords_items_loop ::
  "string list \<Rightarrow> nat \<Rightarrow> (string \<times> cval) list \<Rightarrow> error + unit" where
  "coords_items_loop cols n [] = Inr ()"
| "coords_items_loop cols n ((key, coord) # rest) =
     (case coord of
        CBool _ \<Rightarrow>
          (if n > length cols then Inl ValueError
           else if key \<notin> set cols then Inl Warning
           else coords_items_loop cols n rest)
      | _ \<Rightarrow> Inl ValueError)"

fun coords_names_loop :: "string list \<Rightarrow> cval list \<Rightarrow> error + unit" where
  "coords_names_loop cols [] = Inr ()"
| "coords_names_loop cols (coord # rest) =
     (case coord of
        CStr name \<Rightarrow>
          (if name \<notin> set cols then Inl Warning else coords_names_loop cols rest)
      | _ \<Rightarrow> Inl TypeError)"

definition init_coords :: "string list \<Rightarrow> coords_arg \<Rightarrow> error + (string \<times> cval) list" where
  "init_coords cols coords =
     (case coords of
        CoordsDict d \<Rightarrow>
          (case coords_items_loop cols (length d) d of Inl e \<Rightarrow> Inl e | Inr _ \<Rightarrow> Inr d)
      | CoordsList [] \<Rightarrow> Inl IndexError
      | CoordsList (CStr s # rest) \<Rightarrow>
          (case coords_names_loop cols (CStr s # rest) of
             Inl e \<Rightarrow> Inl e
           | Inr _ \<Rightarrow>
               Inr (dict_of (map (\<lambda>col. (col, CBool (CStr col \<in> set (CStr s # rest)))) cols)))
      | CoordsList (CBool b # rest) \<Rightarrow>
          (if length (CBool b # rest) \<noteq> length cols then Inl IndexError
           else Inr (dict_of (zip cols (CBool b # rest))))
      | CoordsList (COther # rest) \<Rightarrow> Inl TypeError
      | CoordsOther \<Rightarrow> Inl TypeError)"

definition NodeDataFrame ::
  "data_arg \<Rightarrow> coords_arg \<Rightarrow> units_arg \<Rightarrow> string list option \<Rightarrow> error + node_table" where
  "NodeDataFrame data coords units cols_arg =
     (case named_columns data cols_arg of
        None \<Rightarrow> Inl ValueError
      | Some cols \<Rightarrow>
          if cols = [] then Inl ValueError
          else case init_units cols units of
                 Inl e \<Rightarrow> Inl e
               | Inr us \<Rightarrow>
                   (case init_coords cols coords of
                      Inl e \<Rightarrow> Inl e
                    | Inr cs \<Rightarrow>
                        Inr \<lparr>columns = (if connect_col \<notin> set cols then cols @ [connect_col]
                                        else cols),
                             coord_row = cs,
                             units_row = us\<rparr>))"

section \<open>Nearest-neighbour search\<close>

text \<open>
  A table is the list of its rows, in positional order. A row has the three coordinate
  columns \<open>x\<close>, \<open>y\<close>, \<open>z\<close> that \<open>knn_coords\<close> reads (here \<open>col_x\<close>, \<open>col_y\<close>,
  \<open>col_z\<close>) and carries every other column in \<open>other\<close>. The variable \<open>bucket\<close> starts
  as \<open>pd.DataFrame()\<close>, a frame without columns (\<open>NoColumns\<close>), on which
  \<open>bucket.loc[:,'x']\<close> raises KeyError.
\<close>

record 'a row =
  col_x :: real
  col_y :: real
  col_z :: real
  other :: 'a

datatype 'a frame = NoColumns | Frame "'a row list"

fun frame_len :: "'a frame \<Rightarrow> nat" where
  "frame_len NoColumns = 0"
| "frame_len (Frame rows) = length rows"

text \<open>
  \<^verbatim>\<open>
  df[(df.x - x > -bucket_leg) & (df.x - x < bucket_leg) &
     (df.y - y > -bucket_leg) & (df.y - y < bucket_leg) &
     (df.z - z > -bucket_leg) & (df.z - z < bucket_leg)]
  \<close>
\<close>

definition select_cube :: "'a row list \<Rightarrow> real \<Rightarrow> real \<Rightarrow> real \<Rightarrow> real \<Rightarrow> 'a row list" where
  "select_cube df x y z bucket_leg =
     filter (\<lambda>r. col_x r - x > - bucket_leg \<and> col_x r - x < bucket_leg \<and>
                 col_y r - y > - bucket_leg \<and> col_y r - y < bucket_leg \<and>
                 col_z r - z > - bucket_leg \<and> col_z r - z < bucket_leg) df"

text \<open>
  \<^verbatim>\<open>
  while len(bucket) < k * bucketslop:
      bucket = df[...]
      bucket_leg *= 2
  \<close>
  with \<open>bucketslop = 2\<close>. The loop may run forever, so its model is a partial function:
  \<open>None\<close> is the loop that never exits. A floating-point \<open>bucket_leg\<close> that keeps
  doubling ends at infinity, where the cube holds every row with finite coordinates; a
  real \<open>bucket_leg\<close> reaches the same bucket once it exceeds every offset.
\<close>

partial_function (option) bucket_loop ::
  "'a row list \<Rightarrow> int \<Rightarrow> real \<Rightarrow> real \<Rightarrow> real \<Rightarrow> 'a frame \<Rightarrow> real \<Rightarrow> 'a frame option" where
  "bucket_loop df k x y z bucket bucket_leg =
     (if int (frame_len bucket) < k * 2
      then bucket_loop df k x y z (Frame (select_cube df x y z bucket_leg)) (bucket_leg * 2)
      else Some bucket)"

definition row_dist :: "real \<Rightarrow> real \<Rightarrow> real \<Rightarrow> 'a row \<Rightarrow> real" where
  "row_dist x y z r = sqrt ((col_x r - x)\<^sup>2 + (col_y r - y)\<^sup>2 + (col_z r - z)\<^sup>2)"

text \<open>\<open>xs[:k]\<close>: a negative \<open>k\<close> counts from the end.\<close>

definition slice_to :: "int \<Rightarrow> 'b list \<Rightarrow> 'b list" where
  "slice_to k xs = (if k < 0 then take (nat (int (length xs) + k)) xs else take (nat k) xs)"

text \<open>
  \<^verbatim>\<open>
  dists = ((bucket.loc[:,'x'] - x)**2 + (bucket.loc[:,'y'] - y)**2 +
           (bucket.loc[:,'z'] - z)**2)**(1/2)
  dists = zip(dists, range(len(dists)))
  dists = sorted(dists, key=lambda item: item[0])
  dists = dists[:k]
  sel = [it[1] for it in dists]
  return bucket.iloc[sel]
  \<close>
  \<open>sorted\<close> is stable, as is \<open>sort_key\<close>. Every position in \<open>sel\<close> comes from
  \<open>range(len(dists))\<close>, so \<open>iloc\<close> is in range.
\<close>

definition search_bucket :: "'a row list \<Rightarrow> int \<Rightarrow> real \<Rightarrow> real \<Rightarrow> real \<Rightarrow> 'a row list" where
  "search_bucket bucket k x y z =
     (let dists = map (row_dist x y z) bucket;
          dists = zip dists [0..<length dists];
          dists = sort_key fst dists;
          dists = slice_to k dists;
          sel = map snd dists
      in map (\<lambda>i. bucket ! i) sel)"

text \<open>
  \<^verbatim>\<open>
  x = coords[0]; y = coords[1]; z = coords[2]
  bucket = pd.DataFrame()
  if scale_length:
      bucket_leg = k * scale_length / 2
      while ...
  else:
      bucket = df
  \<close>
  The result is \<open>None\<close> when the call never returns, \<open>Some (Inl e)\<close> when it raises and
  \<open>Some (Inr rows)\<close> when it returns the table \<open>rows\<close>.
\<close>

definition knn_coords ::
  "'a row list \<Rightarrow> int \<Rightarrow> real list \<Rightarrow> real option \<Rightarrow> (error + 'a row list) option" where
  "knn_coords df k coords scale_length =
     (case coords of
        x # y # z # _ \<Rightarrow>
          (case (case scale_length of
                   None \<Rightarrow> Some (Frame df)
                 | Some len \<Rightarrow>
                     if len \<noteq> 0
                     then bucket_loop df k x y z NoColumns (of_int k * len / 2)
                     else Some (Frame df)) of
             None \<Rightarrow> None
           | Some NoColumns \<Rightarrow> Some (Inl (KeyError ''x''))
           | Some (Frame bucket) \<Rightarrow> Some (Inr (search_bucket bucket k x y z)))
      | _ \<Rightarrow> Some (Inl IndexError))"

text \<open>
  The sum of all coordinate offsets of the table from the query point: a bound on each
  of them, used to show that a growing cube ends up holding the whole table.
\<close>

definition spread :: "'a row list \<Rightarrow> real \<Rightarrow> real \<Rightarrow> real \<Rightarrow> real" where
  "spread df x y z = (\<Sum>r\<leftarrow>df. \<bar>col_x r - x\<bar> + \<bar>col_y r - y\<bar> + \<bar>col_z r - z\<bar>)"

text \<open>A row written by its coordinates and the rest of its columns.\<close>

abbreviation point :: "real \<Rightarrow> real \<Rightarrow> real \<Rightarrow> 'a \<Rightarrow> 'a row" where
  "point px py pz a \<equiv> \<lparr>col_x = px, col_y = py, col_z = pz, other = a\<rparr>"

section \<open>Properties\<close>

subsection \<open>Distance between two sequences\<close>

lemma fold_add_sq: "fold (\<lambda>delta s. s + delta\<^sup>2) ds (a::real) = a + (\<Sum>d\<leftarrow>ds. d\<^sup>2)"
  by (induction ds arbitrary: a) (simp_all add: add.assoc)

lemma get_dist_sum_list:
  "get_dist a b = sqrt (\<Sum>(p, q)\<leftarrow>zip a b. (q - p)\<^sup>2)"
  by (simp add: get_dist_def fold_add_sq map_map comp_def case_prod_unfold)

lemma sum_list_zip_nth:
  "(\<Sum>(p, q)\<leftarrow>zip a b. (q - p)\<^sup>2) =
   (\<Sum>i<min (length a) (length b). ((b ! i) - (a ! i :: real))\<^sup>2)"
proof -
  have "(\<Sum>(p, q)\<leftarrow>zip a b. (q - p)\<^sup>2) =
        (\<Sum>i<length (zip a b). (case zip a b ! i of (p, q) \<Rightarrow> (q - p)\<^sup>2))"
    by (simp add: sum_list_sum_nth atLeast0LessThan)
  also have "\<dots> = (\<Sum>i<min (length a) (length b). ((b ! i) - (a ! i))\<^sup>2)"
    by (rule sum.cong) (simp_all add: min.commute)
  finally show ?thesis .
qed

text \<open>
  Claim C4. \<open>get_dist\<close> is the Euclidean distance over the first
  \<open>min (len seq1) (len seq2)\<close> components only: the components beyond the shorter
  length play no part, and no error arises (the function is total). On the two example
  inputs it gives 5 and 0.
\<close>

theorem get_dist_truncates:
  "get_dist seq1 seq2 =
     sqrt (\<Sum>i<min (length seq1) (length seq2). (seq2 ! i - seq1 ! i)\<^sup>2)
   \<and> get_dist seq1 seq2 =
     get_dist (take (min (length seq1) (length seq2)) seq1)
              (take (min (length seq1) (length seq2)) seq2)
   \<and> get_dist [0, 0, 0] [3, 4, 0] = 5
   \<and> get_dist [1, 2] [1, 2, 9] = 0"
proof -
  have general: "get_dist a b = sqrt (\<Sum>i<min (length a) (length b). (b ! i - a ! i)\<^sup>2)"
    for a b
    by (simp add: get_dist_sum_list sum_list_zip_nth)
  have "get_dist (take (min (length seq1) (length seq2)) seq1)
                 (take (min (length seq1) (length seq2)) seq2) =
        sqrt (\<Sum>i<min (length seq1) (length seq2). (seq2 ! i - seq1 ! i)\<^sup>2)"
    by (simp add: general)
  moreover have "get_dist [0, 0, 0] [3, 4, 0] = 5"
  proof -
    have "get_dist [0, 0, 0] [3, 4, 0] = sqrt (5\<^sup>2)"
      by (simp add: get_dist_def)
    then show ?thesis by simp
  qed
  moreover have "get_dist [1, 2] [1, 2, 9] = 0"
    by (simp add: get_dist_def)
  ultimately show ?thesis
    using general [of seq1 seq2] by simp
qed

text \<open>
  Claim C10. \<open>get_dist\<close> is symmetric in its two arguments, also for sequences of
  unequal length.
\<close>

theorem get_dist_symmetric: "get_dist a b = get_dist b a"
proof -
  have "(\<Sum>i<min (length a) (length b). (b ! i - a ! i)\<^sup>2) =
        (\<Sum>i<min (length b) (length a). (a ! i - b ! i)\<^sup>2)"
    by (simp add: min.commute power2_commute)
  then show ?thesis
    by (simp add: get_dist_sum_list sum_list_zip_nth)
qed

subsection \<open>Distance between two labelled points\<close>

lemma pd_dist_loop_present:
  "\<forall>c\<in>set cs. c \<in> dom s1 \<and> c \<in> dom s2 \<Longrightarrow>
   pd_dist_loop s1 s2 cs t = Inr (t + (\<Sum>c\<leftarrow>cs. (the (s2 c) - the (s1 c))\<^sup>2))"
proof (induction cs arbitrary: t)
  case Nil
  then show ?case by simp
next
  case (Cons c cs)
  from Cons.prems obtain v1 v2 where "s1 c = Some v1" "s2 c = Some v2"
    by auto
  with Cons show ?case by (simp add: add.assoc)
qed

text \<open>
  The loop raises at the first requested axis that one of the points lacks, and the
  message carries that axis.
\<close>

lemma pd_dist_loop_first_missing:
  assumes "\<forall>a\<in>set pre. a \<in> dom s1 \<and> a \<in> dom s2" and "c \<notin> dom s1 \<or> c \<notin> dom s2"
  shows "pd_dist_loop s1 s2 (pre @ c # post) t =
     Inl (KeyError (''Key '' @ c @ '' missing from series.''))"
  using assms(1)
proof (induction pre arbitrary: t)
  case Nil
  from assms(2) show ?case
    by (auto simp: domIff split: option.splits)
next
  case (Cons a pre)
  from Cons.prems obtain v1 v2 where "s1 a = Some v1" "s2 a = Some v2"
    by auto
  with Cons show ?case by simp
qed

lemma first_missing_split:
  assumes "\<exists>c\<in>set cs. \<not> P c"
  shows "\<exists>pre c post. cs = pre @ c # post \<and> (\<forall>a\<in>set pre. P a) \<and> \<not> P c"
proof -
  from assms have "\<exists>c\<in>set cs. \<not> P c" .
  then obtain pre c post where "cs = pre @ c # post" "\<not> P c" "\<forall>a\<in>set pre. \<not> \<not> P a"
    using split_list_first_prop [of cs "\<lambda>c. \<not> P c"] by blast
  then show ?thesis by auto
qed

lemma pd_dist_sqrt_9: "sqrt 9 = 3"
  using real_sqrt_abs [of 3] by simp

text \<open>
  Claim C7. \<open>pd_dist\<close> is the Euclidean distance over the requested axes; an omitted
  second point is the origin (0 at x, y and z) and omitted axes are x, y, z, so the point
  (1, 2, 2) is at distance 3. The call raises exactly when a requested axis is missing
  from one of the two points, and what it raises is the KeyError whose message
  \<open>Key <axis> missing from series.\<close> names the first such axis.
\<close>

theorem pd_dist_contract:
  "pd_dist p None cs = pd_dist p (Some [''x'' \<mapsto> 0, ''y'' \<mapsto> 0, ''z'' \<mapsto> 0]) cs
   \<and> pd_dist p q None = pd_dist p q (Some [''x'', ''y'', ''z''])
   \<and> pd_dist [''x'' \<mapsto> 1, ''y'' \<mapsto> 2, ''z'' \<mapsto> 2] None None = Inr 3
   \<and> ((\<forall>c\<in>set coords. c \<in> dom s1 \<and> c \<in> dom s2) \<longrightarrow>
        pd_dist s1 (Some s2) (Some coords) =
          Inr (sqrt (\<Sum>c\<leftarrow>coords. (the (s2 c) - the (s1 c))\<^sup>2)))
   \<and> ((\<exists>c\<in>set coords. c \<notin> dom s1 \<or> c \<notin> dom s2) \<longleftrightarrow>
        (\<exists>e. pd_dist s1 (Some s2) (Some coords) = Inl e))
   \<and> (\<forall>e. pd_dist s1 (Some s2) (Some coords) = Inl e \<longrightarrow>
        (\<exists>pre c post. coords = pre @ c # post
           \<and> (\<forall>a\<in>set pre. a \<in> dom s1 \<and> a \<in> dom s2)
           \<and> (c \<notin> dom s1 \<or> c \<notin> dom s2)
           \<and> e = KeyError (''Key '' @ c @ '' missing from series.'')))"
proof -
  have example: "pd_dist [''x'' \<mapsto> 1, ''y'' \<mapsto> 2, ''z'' \<mapsto> 2] None None = Inr 3"
    by (simp add: pd_dist_def origin_def xyz_def pd_dist_sqrt_9)
  have present: "pd_dist s1 (Some s2) (Some coords) =
          Inr (sqrt (\<Sum>c\<leftarrow>coords. (the (s2 c) - the (s1 c))\<^sup>2))"
    if "\<forall>c\<in>set coords. c \<in> dom s1 \<and> c \<in> dom s2"
    using pd_dist_loop_present [OF that, of 0] by (simp add: pd_dist_def)
  have absent: "\<exists>pre c post. coords = pre @ c # post
           \<and> (\<forall>a\<in>set pre. a \<in> dom s1 \<and> a \<in> dom s2)
           \<and> (c \<notin> dom s1 \<or> c \<notin> dom s2)
           \<and> pd_dist s1 (Some s2) (Some coords) =
               Inl (KeyError (''Key '' @ c @ '' missing from series.''))"
    if "\<exists>c\<in>set coords. c \<notin> dom s1 \<or> c \<notin> dom s2"
  proof -
    from that have "\<exists>c\<in>set coords. \<not> (c \<in> dom s1 \<and> c \<in> dom s2)"
      by blast
    from first_missing_split [OF this] obtain pre c post
      where split: "coords = pre @ c # post"
        and pre: "\<forall>a\<in>set pre. a \<in> dom s1 \<and> a \<in> dom s2"
        and c: "c \<notin> dom s1 \<or> c \<notin> dom s2"
      by blast
    from pd_dist_loop_first_missing [OF pre c, of post 0]
    have "pd_dist s1 (Some s2) (Some coords) =
        Inl (KeyError (''Key '' @ c @ '' missing from series.''))"
      by (simp add: pd_dist_def split)
    with split pre c show ?thesis by blast
  qed
  have iff: "(\<exists>c\<in>set coords. c \<notin> dom s1 \<or> c \<notin> dom s2) \<longleftrightarrow>
        (\<exists>e. pd_dist s1 (Some s2) (Some coords) = Inl e)"
  proof
    assume "\<exists>c\<in>set coords. c \<notin> dom s1 \<or> c \<notin> dom s2"
    from absent [OF this] show "\<exists>e. pd_dist s1 (Some s2) (Some coords) = Inl e"
      by blast
  next
    assume "\<exists>e. pd_dist s1 (Some s2) (Some coords) = Inl e"
    then obtain e where e: "pd_dist s1 (Some s2) (Some coords) = Inl e" ..
    show "\<exists>c\<in>set coords. c \<notin> dom s1 \<or> c \<notin> dom s2"
    proof (rule ccontr)
      assume "\<not> (\<exists>c\<in>set coords. c \<notin> dom s1 \<or> c \<notin> dom s2)"
      then have "\<forall>c\<in>set coords. c \<in> dom s1 \<and> c \<in> dom s2" by blast
      from present [OF this] e show False by simp
    qed
  qed
  have named: "\<exists>pre c post. coords = pre @ c # post
           \<and> (\<forall>a\<in>set pre. a \<in> dom s1 \<and> a \<in> dom s2)
           \<and> (c \<notin> dom s1 \<or> c \<notin> dom s2)
           \<and> e = KeyError (''Key '' @ c @ '' missing from series.'')"
    if "pd_dist s1 (Some s2) (Some coords) = Inl e" for e
  proof -
    from that iff have "\<exists>c\<in>set coords. c \<notin> dom s1 \<or> c \<notin> dom s2" by blast
    from absent [OF this] that show ?thesis by auto
  qed
  have d1: "pd_dist p None cs = pd_dist p (Some [''x'' \<mapsto> 0, ''y'' \<mapsto> 0, ''z'' \<mapsto> 0]) cs"
    by (simp add: pd_dist_def origin_def)
  have d2: "pd_dist p q None = pd_dist p q (Some [''x'', ''y'', ''z''])"
    by (simp add: pd_dist_def xyz_def)
  from d1 d2 example present iff named show ?thesis by blast
qed

theorem pd_dist_contract_witness:
  "pd_dist [''x'' \<mapsto> 1, ''y'' \<mapsto> 2, ''z'' \<mapsto> 2]
       (Some [''x'' \<mapsto> 0, ''y'' \<mapsto> 0, ''z'' \<mapsto> 0]) (Some [''x'', ''y'', ''z'']) = Inr 3
   \<and> pd_dist [''x'' \<mapsto> 1, ''z'' \<mapsto> 2]
       (Some [''x'' \<mapsto> 0, ''y'' \<mapsto> 0, ''z'' \<mapsto> 0]) (Some [''x'', ''y'', ''z''])
     = Inl (KeyError ''Key y missing from series.'')
   \<and> ''y'' \<in> set [''x'', ''y'', ''z''] \<and> ''y'' \<notin> dom [''x'' \<mapsto> 1::real, ''z'' \<mapsto> 2]"
proof -
  let ?o = "[''x'' \<mapsto> 0::real, ''y'' \<mapsto> 0, ''z'' \<mapsto> 0]"
  let ?p = "[''x'' \<mapsto> 1::real, ''y'' \<mapsto> 2, ''z'' \<mapsto> 2]"
  let ?q = "[''x'' \<mapsto> 1::real, ''z'' \<mapsto> 2]"
  let ?cs = "[''x'', ''y'', ''z'']"
  have pres: "\<forall>c\<in>set ?cs. c \<in> dom ?p \<and> c \<in> dom ?o"
    by simp
  have abs: "\<exists>c\<in>set ?cs. c \<notin> dom ?q \<or> c \<notin> dom ?o"
    by simp
  have a: "pd_dist ?p (Some ?o) (Some ?cs) = Inr 3"
    using pres pd_dist_contract [where ?s1.0 = ?p and ?s2.0 = ?o and coords = ?cs]
    by (simp add: pd_dist_sqrt_9)
  have "\<exists>e. pd_dist ?q (Some ?o) (Some ?cs) = Inl e"
    using abs pd_dist_contract [where ?s1.0 = ?q and ?s2.0 = ?o and coords = ?cs]
    by blast
  then have b: "pd_dist ?q (Some ?o) (Some ?cs) = Inl (KeyError ''Key y missing from series.'')"
    by (simp add: pd_dist_def)
  have "''y'' \<in> set ?cs" and "''y'' \<notin> dom ?q"
    by simp_all
  with a b show ?thesis by blast
qed

subsection \<open>Cubic weights\<close>

lemma fold_min_Min: "fold min ds (d::real) = Min (set (d # ds))"
  by (rule Min.set_eq_fold [symmetric])

lemma fold_fl_add_Fin:
  "fold (\<lambda>w acc. fl_add acc w) (map Fin xs) (Fin a) = Fin (a + sum_list xs)"
  by (induction xs arbitrary: a) (simp_all add: add.assoc)

lemma nansum_Fin: "nansum (map Fin xs) = Fin (sum_list xs)"
proof -
  have "filter (\<lambda>w. w \<noteq> NaN) (map Fin xs) = map Fin xs"
    by (induction xs) simp_all
  then show ?thesis by (simp add: nansum_def fold_fl_add_Fin)
qed

lemma nansum_zero_or_NaN:
  assumes "\<forall>w\<in>set ws. w = Fin 0 \<or> w = NaN"
  shows "nansum ws = Fin 0"
proof -
  have "fold (\<lambda>w acc. fl_add acc w) (filter (\<lambda>w. w \<noteq> NaN) ws) (Fin 0) = Fin 0"
    using assms by (induction ws) auto
  then show ?thesis by (simp add: nansum_def)
qed

lemma get_cubic_weight_zero:
  assumes nonneg: "\<forall>d\<in>set ds. 0 \<le> d" and zero: "0 \<in> set ds"
  shows "get_cubic_weight ds = Inr (map (\<lambda>_. Fin 0) ds)"
proof -
  from zero obtain d ds' where ds: "ds = d # ds'"
    by (cases ds) auto
  have "Min (set ds) = 0"
    using nonneg zero by (intro Min_eqI) auto
  then have closest: "fold min ds' d = 0"
    by (simp only: ds fold_min_Min)
  let ?weights = "map (\<lambda>v. fl_cube (fl_div (Fin 0) (Fin v))) ds"
  have w: "\<forall>w\<in>set ?weights. w = Fin 0 \<or> w = NaN"
    by auto
  then have "nansum ?weights = Fin 0"
    by (rule nansum_zero_or_NaN)
  moreover have "map (\<lambda>w. fillna (Fin 0) (fl_div w (Fin 0))) ?weights = map (\<lambda>_. Fin 0) ds"
    by simp
  ultimately have "get_cubic_weight (d # ds') = Inr (map (\<lambda>_. Fin 0) (d # ds'))"
    unfolding get_cubic_weight_def list.case Let_def closest
    using ds by simp
  then show ?thesis by (simp add: ds)
qed

lemma get_cubic_weight_positive:
  assumes pos: "\<forall>d\<in>set ds. 0 < d" and ne: "ds \<noteq> []"
  defines "m \<equiv> Min (set ds)"
  defines "S \<equiv> (\<Sum>v\<leftarrow>ds. (m / v) ^ 3)"
  shows "get_cubic_weight ds = Inr (map (\<lambda>v. Fin ((m / v) ^ 3 / S)) ds)"
    and "(\<Sum>v\<leftarrow>ds. (m / v) ^ 3 / S) = 1"
proof -
  from ne obtain d ds' where ds: "ds = d # ds'"
    by (cases ds) auto
  have closest: "fold min ds' d = m"
    by (simp only: ds fold_min_Min m_def)
  have "m \<in> set ds"
    unfolding m_def using ne by (intro Min_in) auto
  with pos have mpos: "0 < m" by auto
  have term_pos: "0 < (m / v) ^ 3" if "v \<in> set ds" for v
    using that pos mpos by simp
  have "0 < (m / d) ^ 3"
    using term_pos [of d] ds by simp
  moreover have "0 \<le> (\<Sum>v\<leftarrow>ds'. (m / v) ^ 3)"
    by (rule sum_list_nonneg) (use term_pos ds in \<open>auto intro: less_imp_le\<close>)
  ultimately have "0 < (m / d) ^ 3 + (\<Sum>v\<leftarrow>ds'. (m / v) ^ 3)"
    by (rule add_pos_nonneg)
  then have Spos: "0 < S"
    by (simp add: S_def ds)
  let ?weights = "map (\<lambda>v. fl_cube (fl_div (Fin m) (Fin v))) ds"
  have weights: "?weights = map Fin (map (\<lambda>v. (m / v) ^ 3) ds)"
    using pos by auto
  have wsum: "nansum ?weights = Fin S"
    by (simp only: weights nansum_Fin S_def)
  have "map (\<lambda>w. fillna (Fin 0) (fl_div w (Fin S))) ?weights = map (\<lambda>v. Fin ((m / v) ^ 3 / S)) ds"
    using Spos by (simp only: weights) simp
  then have "get_cubic_weight (d # ds') = Inr (map (\<lambda>v. Fin ((m / v) ^ 3 / S)) ds)"
    unfolding get_cubic_weight_def list.case Let_def closest
    using wsum ds by simp
  then show "get_cubic_weight ds = Inr (map (\<lambda>v. Fin ((m / v) ^ 3 / S)) ds)"
    by (simp add: ds)
  have "(\<Sum>v\<leftarrow>ds. (m / v) ^ 3 / S) = (\<Sum>v\<leftarrow>ds. (m / v) ^ 3) / S"
    by (induction ds) (simp_all add: add_divide_distrib)
  then show "(\<Sum>v\<leftarrow>ds. (m / v) ^ 3 / S) = 1"
    using Spos by (simp add: S_def)
qed


lemma get_cubic_weight_example:
  "get_cubic_weight [1, 2] = Inr [Fin (8 / 9), Fin (1 / 9)]"
  by (simp add: get_cubic_weight_def nansum_def power3_eq_cube)

text \<open>
  Claim C3. The claim gives, for the distances 0 and 1, weight 0 to the zero distance
  and all the weight to the distance 1, the two summing to 1. The code gives weight 0
  to both (\<open>get_cubic_weight_zero\<close>: to every entry, whenever a distance is zero), so
  the weights sum to 0. Without a zero distance the weights are as claimed
  (\<open>get_cubic_weight_positive\<close>, \<open>get_cubic_weight_example\<close>).
\<close>

theorem get_cubic_weight_zero_distance:
  "get_cubic_weight [0, 1] = Inr [Fin 0, Fin 0]"
  by (simp add: get_cubic_weight_def nansum_def)

subsection \<open>The ignore list of the interpolator\<close>

text \<open>
  Claim C8, as stated: every call with a list for \<open>ignore\<close> appends the axis name to the
  caller's list. It fails for the empty list, which is not \<open>None\<close> but is false as a
  condition: the caller's list at address 0 is empty before and after the call.
\<close>

theorem linterp_1D_empty_ignore_unchanged:
  "fst (linterp_1D (\<lambda>_. []) [(''x'', 0), (''v'', 1)] [(''x'', 1), (''v'', 3)]
          ''x'' (1 / 2) (Some 0)) 0 = []
   \<and> fst (linterp_1D (\<lambda>_. []) [(''x'', 0), (''v'', 1)] [(''x'', 1), (''v'', 3)]
          ''x'' (1 / 2) (Some 0)) 0 \<noteq> (\<lambda>_. []) (0::nat) @ [''x'']"
  by (simp add: linterp_1D_def)

text \<open>
  Claim C8, amended. A call with a non-empty list for \<open>ignore\<close> appends the axis name to
  the caller's list object (which grows by one element) and changes no other list, also
  when the call then raises; a call with \<open>None\<close> or with an empty list leaves every list
  of the caller as it was and uses a fresh list.
\<close>

theorem linterp_1D_ignore_effect:
  "(ignore = Some a \<and> h a \<noteq> [] \<longrightarrow>
      fst (linterp_1D h s1 s2 colname coord ignore) = h(a := h a @ [colname]))
   \<and> (ignore = None \<or> (ignore = Some a \<and> h a = []) \<longrightarrow>
      fst (linterp_1D h s1 s2 colname coord ignore) = h)"
  by (auto simp: linterp_1D_def)

theorem linterp_1D_ignore_effect_witness:
  "fst (linterp_1D (\<lambda>_. [''v'']) [(''x'', 0), (''v'', 1)] [(''x'', 1), (''v'', 3)]
          ''x'' (1 / 2) (Some 0)) 0 = [''v'', ''x'']
   \<and> fst (linterp_1D (\<lambda>_. [''v'']) [(''x'', 0), (''v'', 1)] [(''x'', 1), (''v'', 3)]
          ''x'' (1 / 2) None) 0 = [''v'']
   \<and> fst (linterp_1D (\<lambda>_. []) [(''x'', 0), (''v'', 1)] [(''x'', 1), (''v'', 3)]
          ''x'' (1 / 2) (Some 0)) 0 = []"
  using
    linterp_1D_ignore_effect [of "Some 0" 0 "\<lambda>_. [''v'']" "[(''x'', 0), (''v'', 1)]"
      "[(''x'', 1), (''v'', 3)]" "''x''" "1 / 2"]
    linterp_1D_ignore_effect [of None 0 "\<lambda>_. [''v'']" "[(''x'', 0), (''v'', 1)]"
      "[(''x'', 1), (''v'', 3)]" "''x''" "1 / 2"]
    linterp_1D_ignore_effect [of "Some 0" 0 "\<lambda>_. []" "[(''x'', 0), (''v'', 1)]"
      "[(''x'', 1), (''v'', 3)]" "''x''" "1 / 2"]
  by simp

subsection \<open>Errors of the constructor\<close>

lemma init_units_error: "init_units cols units = Inl e \<Longrightarrow> e = Warning"
proof -
  have "units_items_loop cols d = Inl e \<Longrightarrow> e = Warning" for d
    by (induction cols d rule: units_items_loop.induct) (auto split: if_splits)
  then show "init_units cols units = Inl e \<Longrightarrow> e = Warning"
    by (auto simp: init_units_def split: units_arg.splits if_splits sum.splits)
qed

lemma malformed_units_raise:
  assumes "named_columns data cols_arg = Some cols" and "cols \<noteq> []"
    and "(\<exists>us. units = UnitsList us \<and> us \<noteq> [] \<and> length us \<noteq> length cols)
         \<or> (\<exists>n. units = UnitsNumber n \<and> n \<noteq> 0)"
  shows "NodeDataFrame data coords units cols_arg = Inl Warning"
  using assms by (auto simp: NodeDataFrame_def init_units_def)

text \<open>
  Claim C5. The claim has a malformed units specification degrade to no units. In the
  code \<open>raise Warning\<close> comes before \<open>units = {}\<close> and nothing catches it, so the
  constructor raises (\<open>malformed_units_raise\<close>): here for a list of one unit with two
  columns, and for the number 5.
\<close>

theorem malformed_units_raise_warning:
  "NodeDataFrame (DictData [''x'', ''y'']) (CoordsList [CStr ''x'']) (UnitsList [''m'']) None
     = Inl Warning
   \<and> NodeDataFrame (DictData [''x'', ''y'']) (CoordsList [CStr ''x'']) (UnitsNumber 5) None
     = Inl Warning"
  by (simp add: NodeDataFrame_def named_columns_def init_units_def)

text \<open>
  Claim C6, as stated: a list of booleans of the wrong length makes construction fail
  with a value error. With one column and two booleans the constructor raises
  IndexError, which is not a ValueError.
\<close>

theorem bool_list_mismatch_not_value_error:
  "NodeDataFrame (DictData [''x'']) (CoordsList [CBool True, CBool False]) UnitsNone None
     = Inl IndexError
   \<and> NodeDataFrame (DictData [''x'']) (CoordsList [CBool True, CBool False]) UnitsNone None
     \<noteq> Inl ValueError"
  by (simp add: NodeDataFrame_def named_columns_def init_units_def init_coords_def)

text \<open>
  Claim C6, amended. When at least one column is named and the units specification is
  accepted, a list of booleans whose length is not the number of columns makes
  construction fail with an index error.
\<close>

theorem bool_list_mismatch_index_error:
  assumes "named_columns data cols_arg = Some cols" and "cols \<noteq> []"
    and "init_units cols units = Inr us"
    and "\<forall>c\<in>set bs. \<exists>b. c = CBool b"
    and "length bs \<noteq> length cols"
  shows "NodeDataFrame data (CoordsList bs) units cols_arg = Inl IndexError"
proof (cases bs)
  case Nil
  with assms show ?thesis
    by (simp add: NodeDataFrame_def init_coords_def)
next
  case (Cons c rest)
  with assms(4) obtain b where "c = CBool b" by auto
  with Cons assms show ?thesis
    by (simp add: NodeDataFrame_def init_coords_def)
qed

theorem bool_list_mismatch_index_error_witness:
  "named_columns (DictData [''x'']) None = Some [''x''] \<and> [''x''] \<noteq> []
   \<and> init_units [''x''] UnitsNone = Inr []
   \<and> length [CBool True, CBool False] \<noteq> length [''x'']
   \<and> NodeDataFrame (DictData [''x'']) (CoordsList [CBool True, CBool False]) UnitsNone None
       = Inl IndexError"
proof -
  have h1: "named_columns (DictData [''x'']) None = Some [''x'']"
    by (simp add: named_columns_def)
  have h2: "[''x''] \<noteq> []" by simp
  have h3: "init_units [''x''] UnitsNone = Inr []"
    by (simp add: init_units_def)
  have h4: "\<forall>c\<in>set [CBool True, CBool False]. \<exists>b. c = CBool b" by auto
  have h5: "length [CBool True, CBool False] \<noteq> length [''x'']" by simp
  from bool_list_mismatch_index_error [OF h1 h2 h3 h4 h5] h1 h2 h3 h4 h5
  show ?thesis by blast
qed

subsection \<open>The search in a bucket\<close>

lemma insort_key_map_comm:
  "insort_key f (g x) (map g xs) = map g (insort_key (\<lambda>a. f (g a)) x xs)"
  by (induction xs) simp_all

lemma sort_key_map_comm:
  "sort_key f (map g xs) = map g (sort_key (\<lambda>a. f (g a)) xs)"
  by (induction xs) (simp_all add: insort_key_map_comm)

lemma slice_to_map: "slice_to k (map g xs) = map g (slice_to k xs)"
  by (simp add: slice_to_def take_map)

lemma zip_index:
  "zip (map d b) [0..<length (map d b)] = map (\<lambda>i. (d (b ! i), i)) [0..<length b]"
  by (rule nth_equalityI) simp_all

lemma search_bucket_eq:
  "search_bucket b k x y z = slice_to k (sort_key (row_dist x y z) b)"
proof -
  let ?d = "row_dist x y z"
  let ?g = "\<lambda>i. (?d (b ! i), i)"
  have "search_bucket b k x y z =
        map (\<lambda>i. b ! i) (map snd (slice_to k (sort_key fst (map ?g [0..<length b]))))"
    unfolding search_bucket_def Let_def zip_index ..
  also have "\<dots> = map (\<lambda>i. b ! i) (slice_to k (sort_key (\<lambda>i. ?d (b ! i)) [0..<length b]))"
    by (simp add: sort_key_map_comm slice_to_map comp_def)
  also have "\<dots> = slice_to k (sort_key ?d (map (\<lambda>i. b ! i) [0..<length b]))"
    by (simp add: sort_key_map_comm slice_to_map)
  also have "map (\<lambda>i. b ! i) [0..<length b] = b"
    by (rule map_nth)
  finally show ?thesis .
qed

lemma sorted_split:
  "sorted (map f xs) \<Longrightarrow> \<forall>a\<in>set (take n xs). \<forall>b\<in>set (drop n xs). f a \<le> f b"
proof -
  assume "sorted (map f xs)"
  then have "sorted (map f (take n xs) @ map f (drop n xs))"
    by (simp flip: map_append)
  then show ?thesis
    by (simp add: sorted_append)
qed

lemma nearest_rows:
  fixes df :: "'a row list" and x y z :: real and k :: int
  defines "res \<equiv> take (nat k) (sort_key (row_dist x y z) df)"
  shows "length res = min (nat k) (length df)"
    and "sorted (map (row_dist x y z) res)"
    and "mset res \<subseteq># mset df"
    and "\<forall>far\<in>#mset df - mset res. \<forall>near\<in>set res. row_dist x y z near \<le> row_dist x y z far"
    and "length df \<le> nat k \<Longrightarrow> mset res = mset df"
proof -
  let ?s = "sort_key (row_dist x y z) df"
  have split: "mset df = mset res + mset (drop (nat k) ?s)"
    unfolding res_def by (metis append_take_drop_id mset_append mset_sort)
  show "length res = min (nat k) (length df)"
    by (simp add: res_def min.commute)
  show "sorted (map (row_dist x y z) res)"
    unfolding res_def by (simp add: take_map [symmetric] sorted_wrt_take)
  show "mset res \<subseteq># mset df"
    by (simp add: split)
  have "mset df - mset res = mset (drop (nat k) ?s)"
    by (simp add: split)
  then show "\<forall>far\<in>#mset df - mset res. \<forall>near\<in>set res. row_dist x y z near \<le> row_dist x y z far"
    using sorted_split [of "row_dist x y z" ?s "nat k"]
    by (auto simp: res_def)
  show "mset res = mset df" if "length df \<le> nat k"
    using that by (simp add: res_def)
qed

subsection \<open>The loop that builds the bucket\<close>

lemmas bucket_loop_induct = bucket_loop.raw_induct
  [where xa = "((((((df, k), x), y), z), b), h)" and ya = r, unfolded prod.case]
  for df k x y z b h r

lemma bucket_loop_result:
  assumes "bucket_loop df k x y z b h = Some r"
  shows "k * 2 \<le> int (frame_len r) \<and> (r = b \<or> (\<exists>h'. r = Frame (select_cube df x y z h')))"
proof (rule bucket_loop_induct
    [where P = "\<lambda>df k x y z b h r.
       k * 2 \<le> int (frame_len r) \<and> (r = b \<or> (\<exists>h'. r = Frame (select_cube df x y z h')))",
     OF _ assms])
  fix f :: "'a row list \<Rightarrow> int \<Rightarrow> real \<Rightarrow> real \<Rightarrow> real \<Rightarrow> 'a frame \<Rightarrow> real \<Rightarrow> 'a frame option"
  fix df k x y z b h r
  assume IH: "\<And>df k x y z b h r. f df k x y z b h = Some r \<Longrightarrow>
      k * 2 \<le> int (frame_len r) \<and> (r = b \<or> (\<exists>h'. r = Frame (select_cube df x y z h')))"
  assume step: "(if int (frame_len b) < k * 2
    then f df k x y z (Frame (select_cube df x y z h)) (h * 2) else Some b) = Some r"
  show "k * 2 \<le> int (frame_len r) \<and> (r = b \<or> (\<exists>h'. r = Frame (select_cube df x y z h')))"
  proof (cases "int (frame_len b) < k * 2")
    case True
    with step have "f df k x y z (Frame (select_cube df x y z h)) (h * 2) = Some r"
      by simp
    from IH [OF this] show ?thesis by blast
  next
    case False
    with step show ?thesis by simp
  qed
qed

lemma length_select_cube: "int (length (select_cube df x y z h)) \<le> int (length df)"
  by (simp add: select_cube_def)

lemma bucket_loop_diverges:
  assumes "int (frame_len b) < k * 2" and "int (length df) < k * 2"
  shows "bucket_loop df k x y z b h = None"
proof (rule ccontr)
  assume "bucket_loop df k x y z b h \<noteq> None"
  then obtain r where r: "bucket_loop df k x y z b h = Some r" by auto
  from bucket_loop_result [OF r]
  have len: "k * 2 \<le> int (frame_len r)"
    and shape: "r = b \<or> (\<exists>h'. r = Frame (select_cube df x y z h'))"
    by simp_all
  from shape have "int (frame_len r) < k * 2"
  proof
    assume "r = b"
    with assms(1) show ?thesis by simp
  next
    assume "\<exists>h'. r = Frame (select_cube df x y z h')"
    then obtain h' where "r = Frame (select_cube df x y z h')" ..
    with length_select_cube [of df x y z h'] assms(2) show ?thesis by simp
  qed
  with len show False by simp
qed

lemma select_cube_all:
  assumes "\<forall>r\<in>set df. \<bar>col_x r - x\<bar> < h \<and> \<bar>col_y r - y\<bar> < h \<and> \<bar>col_z r - z\<bar> < h"
  shows "select_cube df x y z h = df"
  unfolding select_cube_def using assms by (intro filter_True) (auto simp: abs_less_iff)

lemma bucket_loop_returns_pow:
  assumes "k * 2 \<le> int (length df)"
    and "\<forall>r\<in>set df. \<bar>col_x r - x\<bar> < h * 2 ^ n \<and> \<bar>col_y r - y\<bar> < h * 2 ^ n
           \<and> \<bar>col_z r - z\<bar> < h * 2 ^ n"
  shows "\<exists>r. bucket_loop df k x y z b h = Some r"
  using assms(2)
proof (induction n arbitrary: b h)
  case 0
  then have "select_cube df x y z h = df"
    by (intro select_cube_all) simp
  moreover have "bucket_loop df k x y z (Frame df) (h * 2) = Some (Frame df)"
    using assms(1) by (subst bucket_loop.simps) simp
  ultimately show ?case
    by (subst bucket_loop.simps) simp
next
  case (Suc n)
  have "\<exists>r. bucket_loop df k x y z (Frame (select_cube df x y z h)) (h * 2) = Some r"
    by (rule Suc.IH) (use Suc.prems in \<open>simp add: mult.assoc\<close>)
  then show ?case
    by (subst bucket_loop.simps) simp
qed

lemma spread_bound:
  assumes "r \<in> set df"
  shows "\<bar>col_x r - x\<bar> \<le> spread df x y z" "\<bar>col_y r - y\<bar> \<le> spread df x y z"
    "\<bar>col_z r - z\<bar> \<le> spread df x y z"
proof -
  have "\<bar>col_x r - x\<bar> + \<bar>col_y r - y\<bar> + \<bar>col_z r - z\<bar> \<le> spread df x y z"
    unfolding spread_def using assms
    by (intro member_le_sum_list) auto
  then show "\<bar>col_x r - x\<bar> \<le> spread df x y z" "\<bar>col_y r - y\<bar> \<le> spread df x y z"
    "\<bar>col_z r - z\<bar> \<le> spread df x y z"
    by linarith+
qed

lemma bucket_loop_returns:
  assumes "k * 2 \<le> int (length df)" and "0 < h"
  shows "\<exists>r. bucket_loop df k x y z b h = Some r"
proof -
  obtain n where "spread df x y z / h < 2 ^ n"
    using real_arch_pow [of 2 "spread df x y z / h"] by auto
  with assms(2) have n: "spread df x y z < h * 2 ^ n"
    by (simp add: pos_divide_less_eq mult.commute)
  have "\<forall>r\<in>set df. \<bar>col_x r - x\<bar> < h * 2 ^ n \<and> \<bar>col_y r - y\<bar> < h * 2 ^ n
           \<and> \<bar>col_z r - z\<bar> < h * 2 ^ n"
    using spread_bound [where df = df and x = x and y = y and z = z] n
    by (auto intro: le_less_trans)
  with assms(1) show ?thesis by (rule bucket_loop_returns_pow)
qed

text \<open>
  With a positive half-width and at least \<open>2k\<close> rows in the table, some doubling gives a
  cube of at least \<open>2k\<close> rows; the loop exits with the cube of the first such doubling.
\<close>

lemma bucket_loop_first_cube:
  assumes "k * 2 \<le> int (length (select_cube df x y z (h * 2 ^ m)))"
    and "\<forall>j<m. int (length (select_cube df x y z (h * 2 ^ j))) < k * 2"
    and "int (frame_len b) < k * 2"
  shows "bucket_loop df k x y z b h = Some (Frame (select_cube df x y z (h * 2 ^ m)))"
  using assms
proof (induction m arbitrary: b h)
  case 0
  then have "bucket_loop df k x y z (Frame (select_cube df x y z h)) (h * 2)
      = Some (Frame (select_cube df x y z h))"
    by (subst bucket_loop.simps) simp
  with "0.prems"(3) show ?case
    by (subst bucket_loop.simps) simp
next
  case (Suc m)
  have small: "int (frame_len (Frame (select_cube df x y z h))) < k * 2"
    using Suc.prems(2) [rule_format, of 0] by simp
  have later: "\<forall>j<m. int (length (select_cube df x y z (h * 2 * 2 ^ j))) < k * 2"
  proof (intro allI impI)
    fix j assume "j < m"
    then have "Suc j < Suc m" by simp
    from Suc.prems(2) [rule_format, OF this] show
      "int (length (select_cube df x y z (h * 2 * 2 ^ j))) < k * 2"
      by (simp add: mult.assoc)
  qed
  have "bucket_loop df k x y z (Frame (select_cube df x y z h)) (h * 2)
      = Some (Frame (select_cube df x y z (h * 2 * 2 ^ m)))"
    by (rule Suc.IH) (use Suc.prems(1) later small in \<open>simp_all add: mult.assoc\<close>)
  with Suc.prems(3) show ?case
    by (subst bucket_loop.simps) (simp add: mult.assoc)
qed

lemma some_cube_holds_table:
  assumes "0 < h"
  shows "\<exists>n. select_cube df x y z (h * 2 ^ n) = df"
proof -
  obtain n where "spread df x y z / h < 2 ^ n"
    using real_arch_pow [of 2 "spread df x y z / h"] by auto
  with assms have n: "spread df x y z < h * 2 ^ n"
    by (simp add: pos_divide_less_eq mult.commute)
  have "\<forall>r\<in>set df. \<bar>col_x r - x\<bar> < h * 2 ^ n \<and> \<bar>col_y r - y\<bar> < h * 2 ^ n
           \<and> \<bar>col_z r - z\<bar> < h * 2 ^ n"
    using spread_bound [where df = df and x = x and y = y and z = z] n
    by (auto intro: le_less_trans)
  then have "select_cube df x y z (h * 2 ^ n) = df"
    by (rule select_cube_all)
  then show ?thesis ..
qed

lemma bucket_loop_exits_at_first_cube:
  assumes "k * 2 \<le> int (length df)" and "0 < h" and "int (frame_len b) < k * 2"
  shows "\<exists>m. bucket_loop df k x y z b h = Some (Frame (select_cube df x y z (h * 2 ^ m)))
     \<and> k * 2 \<le> int (length (select_cube df x y z (h * 2 ^ m)))
     \<and> (\<forall>j<m. int (length (select_cube df x y z (h * 2 ^ j))) < k * 2)"
proof -
  let ?big = "\<lambda>n. k * 2 \<le> int (length (select_cube df x y z (h * 2 ^ n)))"
  from some_cube_holds_table [OF assms(2), of df x y z]
  obtain n where "select_cube df x y z (h * 2 ^ n) = df" ..
  with assms(1) have "?big n" by simp
  then have ex: "\<exists>n. ?big n" ..
  define m where "m = (LEAST n. ?big n)"
  from ex have big: "?big m"
    unfolding m_def by (rule LeastI_ex)
  have small: "\<forall>j<m. int (length (select_cube df x y z (h * 2 ^ j))) < k * 2"
  proof (intro allI impI)
    fix j assume "j < m"
    then have "\<not> ?big j"
      unfolding m_def by (rule not_less_Least)
    then show "int (length (select_cube df x y z (h * 2 ^ j))) < k * 2" by simp
  qed
  from bucket_loop_first_cube [OF big small assms(3)] big small
  show ?thesis by blast
qed

lemma select_cube_negative: "h \<le> 0 \<Longrightarrow> select_cube df x y z h = []"
  by (auto simp: select_cube_def filter_empty_conv)

lemma bucket_loop_negative_leg:
  assumes "bucket_loop df k x y z b h = Some r"
  shows "h \<le> 0 \<longrightarrow> r = b \<or> r = Frame []"
proof (rule bucket_loop_induct
    [where P = "\<lambda>df k x y z b h r. h \<le> 0 \<longrightarrow> r = b \<or> r = Frame []",
     OF _ assms])
  fix f :: "'a row list \<Rightarrow> int \<Rightarrow> real \<Rightarrow> real \<Rightarrow> real \<Rightarrow> 'a frame \<Rightarrow> real \<Rightarrow> 'a frame option"
  fix df k x y z b h r
  assume IH: "\<And>df k x y z b h r. f df k x y z b h = Some r \<Longrightarrow> h \<le> 0 \<longrightarrow> r = b \<or> r = Frame []"
  assume step: "(if int (frame_len b) < k * 2
    then f df k x y z (Frame (select_cube df x y z h)) (h * 2) else Some b) = Some r"
  show "h \<le> 0 \<longrightarrow> r = b \<or> r = Frame []"
  proof
    assume h: "h \<le> 0"
    show "r = b \<or> r = Frame []"
    proof (cases "int (frame_len b) < k * 2")
      case True
      with step have "f df k x y z (Frame (select_cube df x y z h)) (h * 2) = Some r"
        by simp
      from IH [OF this] h show ?thesis
        by (simp add: select_cube_negative mult_le_0_iff)
    next
      case False
      with step show ?thesis by simp
    qed
  qed
qed

subsection \<open>Nearest neighbours\<close>

lemma knn_coords_whole:
  assumes "scale_length = None \<or> scale_length = Some 0"
  shows "knn_coords df k (x # y # z # rest) scale_length =
     Some (Inr (slice_to k (sort_key (row_dist x y z) df)))"
  using assms by (auto simp: knn_coords_def search_bucket_eq)

lemma knn_coords_diverges_iff:
  "knn_coords df k (x # y # z # rest) (Some L) = None \<longleftrightarrow>
     L \<noteq> 0 \<and> 1 \<le> k \<and> (int (length df) < k * 2 \<or> L < 0)"
proof (cases "L \<noteq> 0 \<and> 1 \<le> k")
  case False
  then consider "L = 0" | "L \<noteq> 0" "k \<le> 0" by linarith
  then show ?thesis
  proof cases
    case 1
    then show ?thesis by (simp add: knn_coords_def)
  next
    case 2
    then have "bucket_loop df k x y z NoColumns (of_int k * L / 2) = Some NoColumns"
      by (subst bucket_loop.simps) simp
    with 2 show ?thesis by (simp add: knn_coords_def)
  qed
next
  case True
  then have L: "L \<noteq> 0" and k: "1 \<le> k" by simp_all
  let ?h = "of_int k * L / 2"
  let ?loop = "bucket_loop df k x y z NoColumns ?h"
  have knn: "knn_coords df k (x # y # z # rest) (Some L) = None \<longleftrightarrow> ?loop = None"
    using L by (simp add: knn_coords_def split: option.splits frame.splits)
  show ?thesis
  proof (cases "int (length df) < k * 2 \<or> L < 0")
    case short: True
    have "?loop = None"
    proof (cases "int (length df) < k * 2")
      case True
      with k show ?thesis by (intro bucket_loop_diverges) simp_all
    next
      case False
      with short have "L < 0" by simp
      with k have h: "?h \<le> 0"
        by (simp add: mult_le_0_iff)
      show ?thesis
      proof (rule ccontr)
        assume "?loop \<noteq> None"
        then obtain r where r: "?loop = Some r" by auto
        from bucket_loop_negative_leg [OF r] h have "frame_len r = 0" by auto
        with bucket_loop_result [OF r] k show False by simp
      qed
    qed
    with knn short True show ?thesis by simp
  next
    case long: False
    with L k have "0 < ?h" by simp
    moreover from long have "k * 2 \<le> int (length df)" by simp
    ultimately have "\<exists>r. ?loop = Some r"
      by (intro bucket_loop_returns)
    with knn long show ?thesis by auto
  qed
qed

text \<open>
  Claim C2. The claim has the loop exit for every table and every positive
  characteristic length, also for a table of fewer than \<open>2k\<close> rows. No cube holds more
  rows than the table has, so on such a table the condition \<open>len(bucket) < 2k\<close> stays
  true and the call never returns (\<open>knn_coords_diverges_iff\<close> tells exactly when):
  here for a table of one row, \<open>k = 1\<close> and characteristic length 1.
\<close>

theorem knn_coords_small_table_diverges:
  "knn_coords [point 0 0 0 ()] 1 [0, 0, 0] (Some 1) = None"
  by (simp add: knn_coords_diverges_iff)

text \<open>
  Claim C1, as stated: for every table, integer \<open>k\<close> and query point the result is the
  \<open>k\<close> rows nearest to the query point. With a characteristic length the search looks
  only at the rows of a cube: for \<open>k = 1\<close> and length 6 the cube of half-width 3 around
  the origin holds the two rows at (2, 2, 2) and not the row at (3, 0, 0), so the row
  returned is at (2, 2, 2) although the row at (3, 0, 0) is nearer. And for \<open>k = -1\<close> the
  slice \<open>dists[:k]\<close> drops the last row: two rows of three are returned.
\<close>

theorem knn_coords_not_nearest:
  "knn_coords [point 2 2 2 ''A'', point 2 2 2 ''B'', point 3 0 0 ''C''] 1 [0, 0, 0] (Some 6)
     = Some (Inr [point 2 2 2 ''A''])
   \<and> row_dist 0 0 0 (point 3 0 0 ''C'') < row_dist 0 0 0 (point 2 2 2 ''A'')
   \<and> knn_coords [point 0 0 0 ''A'', point 1 0 0 ''B'', point 5 0 0 ''C''] (- 1) [0, 0, 0] None
     = Some (Inr [point 0 0 0 ''A'', point 1 0 0 ''B''])"
proof -
  have "bucket_loop [point 2 2 2 ''A'', point 2 2 2 ''B'', point 3 0 0 ''C''] 1 0 0 0 NoColumns 3
      = Some (Frame [point 2 2 2 ''A'', point 2 2 2 ''B''])"
    by (subst bucket_loop.simps, simp add: select_cube_def, subst bucket_loop.simps, simp)
  then have "knn_coords [point 2 2 2 ''A'', point 2 2 2 ''B'', point 3 0 0 ''C''] 1 [0, 0, 0]
      (Some 6) = Some (Inr [point 2 2 2 ''A''])"
    by (simp add: knn_coords_def search_bucket_def slice_to_def row_dist_def)
  moreover have "row_dist 0 0 0 (point 3 0 0 ''C'') < row_dist 0 0 0 (point 2 2 2 ''A'')"
    by (simp add: row_dist_def real_less_rsqrt)
  moreover have "knn_coords [point 0 0 0 ''A'', point 1 0 0 ''B'', point 5 0 0 ''C''] (- 1)
      [0, 0, 0] None = Some (Inr [point 0 0 0 ''A'', point 1 0 0 ''B''])"
    by (simp add: knn_coords_def search_bucket_def slice_to_def row_dist_def)
  ultimately show ?thesis by simp
qed

text \<open>
  Claim C1, amended (numbers are reals; the query point has at least three coordinates).
  Without a characteristic length (\<open>None\<close> or 0) and with \<open>k \<ge> 0\<close>, the call returns
  \<open>min k n\<close> rows of the \<open>n\<close>-row table, each with all its columns, in ascending
  order of their Euclidean distance to the query point, and no row left out is nearer
  than a row returned; when \<open>k\<close> is at least \<open>n\<close> these are all the rows.
  With a positive characteristic length \<open>L\<close>, \<open>k \<ge> 1\<close> and \<open>n \<ge> 2k\<close>, the call
  returns: among the cubes of half-width \<open>k L / 2\<close>, doubled 0, 1, 2, ... times, it
  takes the first that holds at least \<open>2k\<close> rows and returns \<open>k\<close> rows of it in
  ascending order of distance, no other row of that cube being nearer; rows of the
  table outside the cube may be nearer.
  With a non-zero characteristic length and \<open>k \<le> 0\<close> the call raises KeyError for the
  column \<open>x\<close>, the bucket being a frame without columns.
  The first two conjuncts say what \<open>row_dist\<close> and \<open>select_cube\<close> stand for: the
  Euclidean distance over the three axes, and the rows strictly inside the cube.
\<close>

theorem knn_coords_nearest:
  "row_dist x y z (r :: 'a row) = sqrt ((col_x r - x)\<^sup>2 + (col_y r - y)\<^sup>2 + (col_z r - z)\<^sup>2)
   \<and> select_cube (df :: 'a row list) x y z H =
       filter (\<lambda>r. \<bar>col_x r - x\<bar> < H \<and> \<bar>col_y r - y\<bar> < H \<and> \<bar>col_z r - z\<bar> < H) df
   \<and> (0 \<le> k \<and> (scale_length = None \<or> scale_length = Some 0) \<longrightarrow>
      (\<exists>res. knn_coords df k (x # y # z # rest) scale_length = Some (Inr res)
         \<and> length res = min (nat k) (length df)
         \<and> sorted (map (row_dist x y z) res)
         \<and> mset res \<subseteq># mset df
         \<and> (\<forall>far\<in>#mset df - mset res. \<forall>near\<in>set res.
               row_dist x y z near \<le> row_dist x y z far)
         \<and> (int (length df) \<le> k \<longrightarrow> mset res = mset df)))
   \<and> (0 < L \<and> 1 \<le> k \<and> k * 2 \<le> int (length df) \<longrightarrow>
      (\<exists>m res. knn_coords df k (x # y # z # rest) (Some L) = Some (Inr res)
         \<and> k * 2 \<le> int (length (select_cube df x y z (of_int k * L / 2 * 2 ^ m)))
         \<and> (\<forall>j<m. int (length (select_cube df x y z (of_int k * L / 2 * 2 ^ j))) < k * 2)
         \<and> res = take (nat k)
               (sort_key (row_dist x y z) (select_cube df x y z (of_int k * L / 2 * 2 ^ m)))
         \<and> length res = nat k
         \<and> sorted (map (row_dist x y z) res)
         \<and> mset res \<subseteq># mset (select_cube df x y z (of_int k * L / 2 * 2 ^ m))
         \<and> mset res \<subseteq># mset df
         \<and> (\<forall>far\<in>#mset (select_cube df x y z (of_int k * L / 2 * 2 ^ m)) - mset res.
               \<forall>near\<in>set res. row_dist x y z near \<le> row_dist x y z far)))
   \<and> (L \<noteq> 0 \<and> k \<le> 0 \<longrightarrow>
        knn_coords df k (x # y # z # rest) (Some L) = Some (Inl (KeyError ''x'')))"
proof (intro conjI impI)
  show "row_dist x y z r = sqrt ((col_x r - x)\<^sup>2 + (col_y r - y)\<^sup>2 + (col_z r - z)\<^sup>2)"
    by (simp add: row_dist_def)
next
  show "select_cube df x y z H =
       filter (\<lambda>r. \<bar>col_x r - x\<bar> < H \<and> \<bar>col_y r - y\<bar> < H \<and> \<bar>col_z r - z\<bar> < H) df"
    unfolding select_cube_def by (rule filter_cong) (auto simp: abs_less_iff)
next
  assume a: "0 \<le> k \<and> (scale_length = None \<or> scale_length = Some 0)"
  let ?res = "take (nat k) (sort_key (row_dist x y z) df)"
  from a have "knn_coords df k (x # y # z # rest) scale_length = Some (Inr ?res)"
    by (simp add: knn_coords_whole slice_to_def)
  moreover have "int (length df) \<le> k \<longrightarrow> mset ?res = mset df"
    by simp
  ultimately show "\<exists>res. knn_coords df k (x # y # z # rest) scale_length = Some (Inr res)
         \<and> length res = min (nat k) (length df)
         \<and> sorted (map (row_dist x y z) res)
         \<and> mset res \<subseteq># mset df
         \<and> (\<forall>far\<in>#mset df - mset res. \<forall>near\<in>set res.
               row_dist x y z near \<le> row_dist x y z far)
         \<and> (int (length df) \<le> k \<longrightarrow> mset res = mset df)"
    using nearest_rows(1-4) [where k = k and x = x and y = y and z = z and df = df] by blast
next
  assume b: "0 < L \<and> 1 \<le> k \<and> k * 2 \<le> int (length df)"
  let ?h = "of_int k * L / 2"
  from b have h: "0 < ?h" by simp
  from b have start: "int (frame_len (NoColumns :: 'a frame)) < k * 2" by simp
  from b have "k * 2 \<le> int (length df)" by simp
  from bucket_loop_exits_at_first_cube [OF this h start, of x y z] obtain m
    where loop: "bucket_loop df k x y z NoColumns ?h
        = Some (Frame (select_cube df x y z (?h * 2 ^ m)))"
      and big: "k * 2 \<le> int (length (select_cube df x y z (?h * 2 ^ m)))"
      and small: "\<forall>j<m. int (length (select_cube df x y z (?h * 2 ^ j))) < k * 2"
    by blast
  let ?bucket = "select_cube df x y z (?h * 2 ^ m)"
  let ?res = "take (nat k) (sort_key (row_dist x y z) ?bucket)"
  from b loop have knn: "knn_coords df k (x # y # z # rest) (Some L) = Some (Inr ?res)"
    by (simp add: knn_coords_def search_bucket_eq slice_to_def)
  from b big have len: "length ?res = nat k"
    by simp
  have in_df: "mset ?res \<subseteq># mset df"
  proof -
    have "mset ?res \<subseteq># mset ?bucket"
      by (rule nearest_rows(3))
    also have "mset ?bucket \<subseteq># mset df"
      by (simp add: select_cube_def)
    finally show ?thesis .
  qed
  from knn big small len in_df
    nearest_rows(2-4) [where k = k and x = x and y = y and z = z and df = ?bucket]
  show "\<exists>m res. knn_coords df k (x # y # z # rest) (Some L) = Some (Inr res)
         \<and> k * 2 \<le> int (length (select_cube df x y z (of_int k * L / 2 * 2 ^ m)))
         \<and> (\<forall>j<m. int (length (select_cube df x y z (of_int k * L / 2 * 2 ^ j))) < k * 2)
         \<and> res = take (nat k)
               (sort_key (row_dist x y z) (select_cube df x y z (of_int k * L / 2 * 2 ^ m)))
         \<and> length res = nat k
         \<and> sorted (map (row_dist x y z) res)
         \<and> mset res \<subseteq># mset (select_cube df x y z (of_int k * L / 2 * 2 ^ m))
         \<and> mset res \<subseteq># mset df
         \<and> (\<forall>far\<in>#mset (select_cube df x y z (of_int k * L / 2 * 2 ^ m)) - mset res.
               \<forall>near\<in>set res. row_dist x y z near \<le> row_dist x y z far)"
    by blast
next
  assume c: "L \<noteq> 0 \<and> k \<le> 0"
  then have "bucket_loop df k x y z NoColumns (of_int k * L / 2) = Some NoColumns"
    by (subst bucket_loop.simps) simp
  with c show "knn_coords df k (x # y # z # rest) (Some L) = Some (Inl (KeyError ''x''))"
    by (simp add: knn_coords_def)
qed

theorem knn_coords_nearest_witness:
  "knn_coords [point 0 0 0 ''A'', point 1 0 0 ''B'', point 5 0 0 ''C''] 2 [0, 0, 0] None
     = Some (Inr [point 0 0 0 ''A'', point 1 0 0 ''B''])
   \<and> sorted (map (row_dist 0 0 0) [point 0 0 0 ''A'', point 1 0 0 ''B''])
   \<and> knn_coords [point 5 0 0 ''A'', point 1 0 0 ''B'', point 0 0 0 ''C''] 7 [0, 0, 0] None
     = Some (Inr [point 0 0 0 ''C'', point 1 0 0 ''B'', point 5 0 0 ''A''])
   \<and> (0::real) < 6 \<and> (1::int) \<le> 1
   \<and> 1 * 2 \<le> int (length [point 2 2 2 ''A'', point 2 2 2 ''B'', point 3 0 0 ''C''])
   \<and> knn_coords [point 2 2 2 ''A'', point 2 2 2 ''B'', point 3 0 0 ''C''] 1 [0, 0, 0] (Some 6)
     = Some (Inr [point 2 2 2 ''A''])
   \<and> mset [point 2 2 2 ''A''] \<subseteq># mset [point 2 2 2 ''A'', point 2 2 2 ''B'', point 3 0 0 ''C'']
   \<and> knn_coords [point 0 0 0 ''A'', point 1 0 0 ''B'', point 5 0 0 ''C''] 0 [0, 0, 0] (Some 1)
     = Some (Inl (KeyError ''x''))"
proof -
  let ?t1 = "[point 0 0 0 ''A'', point 1 0 0 ''B'', point 5 0 0 ''C'']"
  let ?t2 = "[point 5 0 0 ''A'', point 1 0 0 ''B'', point 0 0 0 ''C'']"
  let ?t3 = "[point 2 2 2 ''A'', point 2 2 2 ''B'', point 3 0 0 ''C'']"
  have e1: "knn_coords ?t1 2 [0, 0, 0] None = Some (Inr [point 0 0 0 ''A'', point 1 0 0 ''B''])"
    by (simp add: knn_coords_def search_bucket_def slice_to_def row_dist_def)
  have e2: "knn_coords ?t2 7 [0, 0, 0] None
      = Some (Inr [point 0 0 0 ''C'', point 1 0 0 ''B'', point 5 0 0 ''A''])"
    by (simp add: knn_coords_def search_bucket_def slice_to_def row_dist_def)
  have "bucket_loop ?t3 1 0 0 0 NoColumns 3 = Some (Frame [point 2 2 2 ''A'', point 2 2 2 ''B''])"
    by (subst bucket_loop.simps, simp add: select_cube_def, subst bucket_loop.simps, simp)
  then have e3: "knn_coords ?t3 1 [0, 0, 0] (Some 6) = Some (Inr [point 2 2 2 ''A''])"
    by (simp add: knn_coords_def search_bucket_def slice_to_def row_dist_def)
  have s1: "sorted (map (row_dist 0 0 0) [point 0 0 0 ''A'', point 1 0 0 ''B''])"
    using knn_coords_nearest [where k = 2 and scale_length = None and df = ?t1
        and x = 0 and y = 0 and z = 0 and rest = "[]" and L = 0
        and r = "point 0 0 0 ''A''" and H = 1] e1
    by auto
  have hyp: "(0::real) < 6 \<and> (1::int) \<le> 1 \<and> 1 * 2 \<le> int (length ?t3)"
    by simp
  have s3: "mset [point 2 2 2 ''A''] \<subseteq># mset ?t3"
    using knn_coords_nearest [where k = 1 and scale_length = None and df = ?t3
        and x = 0 and y = 0 and z = 0 and rest = "[]" and L = 6
        and r = "point 0 0 0 ''A''" and H = 1] e3 hyp
    by auto
  have e4: "knn_coords ?t1 0 [0, 0, 0] (Some 1) = Some (Inl (KeyError ''x''))"
    using knn_coords_nearest [where k = 0 and scale_length = None and df = ?t1
        and x = 0 and y = 0 and z = 0 and rest = "[]" and L = 1
        and r = "point 0 0 0 ''A''" and H = 1]
    by simp
  from e1 s1 e2 hyp e3 s3 e4 show ?thesis by blast
qed

subsection \<open>Successive differences\<close>

text \<open>
  Claim C9. On the empty sequence \<open>get_deltas\<close> raises IndexError; on a sequence of
  length \<open>n \<ge> 1\<close> it returns a list of length \<open>n - 1\<close>.
\<close>

theorem get_deltas_length:
  "get_deltas [] = Inl IndexError
   \<and> (1 \<le> length xs \<longrightarrow> (\<exists>ds. get_deltas xs = Inr ds \<and> length ds = length xs - 1))"
  by (cases xs) (simp_all add: get_deltas_def)

theorem get_deltas_length_witness:
  "get_deltas [] = Inl IndexError
   \<and> 1 \<le> length [1, 3, 6, 10 :: real]
   \<and> get_deltas [1, 3, 6, 10] = Inr [2, 3, 4]
   \<and> length [2, 3, 4 :: real] = length [1, 3, 6, 10 :: real] - 1"
  using get_deltas_length [of "[1, 3, 6, 10]"]
  by (simp add: get_deltas_def)

end
